theory Spec2Isabelle
  imports Main "HOL-Library.AList"
begin

section \<open>cvpickle: pickling support for contextvars.Context objects\<close>

text \<open>
  A shallow embedding of \<^verbatim>\<open>src/cvpickle.py\<close>. The module consists of the reconstruction
  factory \<^verbatim>\<open>_context_factory\<close>, the class \<^verbatim>\<open>ContextReducer\<close> (registry, reduction,
  registration, unregistration) and the process-wide \<^verbatim>\<open>default_context_reducer\<close> with its
  two module-level wrappers.
\<close>

subsection \<open>Python objects\<close>

text \<open>
  A \<^verbatim>\<open>contextvars.ContextVar\<close> is an object compared and hashed by identity. It is
  modelled by its identity \<open>cv_id\<close> together with its immutable attribute \<^verbatim>\<open>name\<close>; the
  Python test \<^verbatim>\<open>a is b\<close> on context variables is equality of these values.
\<close>

datatype contextvar = ContextVar (cv_id: nat) (name: string)

text \<open>
  \<^verbatim>\<open>type(context)\<close> of an instance of \<^verbatim>\<open>contextvars.Context\<close>: the base class itself,
  or a subclass, given by its \<^verbatim>\<open>__name__\<close>.
\<close>

datatype pytype = Context_type | Context_subclass string

text \<open>
  The Python objects that occur as arguments and as values of context variables. A
  context is its concrete type and its items in the order in which
  \<^verbatim>\<open>context.items()\<close> yields them (the order of the underlying table is not specified,
  so any order is possible); the keys of a context are pairwise distinct.
\<close>

datatype pyobj =
    PyNone
  | PyInt int
  | PyStr string
  | PyContextVar contextvar
  | PyContext pycontext
and pycontext = Context (ctx_type: pytype) (ctx_vars: "(contextvar \<times> pyobj) list")

type_synonym vars = "(contextvar \<times> pyobj) list"

definition wf_context :: "pycontext \<Rightarrow> bool" where
  "wf_context c = distinct (map fst (ctx_vars c))"

text \<open>\<^verbatim>\<open>type(x).__name__\<close>, as the error messages print it.\<close>

fun type_name :: "pyobj \<Rightarrow> string" where
  "type_name PyNone = ''NoneType''"
| "type_name (PyInt _) = ''int''"
| "type_name (PyStr _) = ''str''"
| "type_name (PyContextVar _) = ''ContextVar''"
| "type_name (PyContext (Context Context_type _)) = ''Context''"
| "type_name (PyContext (Context (Context_subclass n) _)) = n"

datatype error =
    TypeError string
  | ValueError string
  | KeyError contextvar
  | AttributeError string
  | ModuleNotFoundError string
  | OtherError string

subsection \<open>The name-resolution mechanism\<close>

text \<open>
  \<^verbatim>\<open>importlib.import_module\<close> and \<^verbatim>\<open>pickle._getattribute\<close> belong to the standard
  library, not to this module. They are parameters of the model, and each returns its
  result or the exception it raises, which the code of this module never catches:
  \<open>import_module\<close> maps a module name to a module, or raises (\<^verbatim>\<open>ModuleNotFoundError\<close> for a
  module that does not exist, \<^verbatim>\<open>ValueError\<close> for the empty name, \<^verbatim>\<open>TypeError\<close> for a
  relative name, or whatever the import of the module raises); \<open>getattribute m q\<close> is
  \<^verbatim>\<open>_getattribute(m, q)[0]\<close>, or the exception of the lookup (\<^verbatim>\<open>AttributeError\<close> for a name
  that is not found). A module is an identity and its \<^verbatim>\<open>__name__\<close>.
\<close>

datatype module = Module (mod_id: nat) (mod_name: string)

record resolver =
  import_module :: "string \<Rightarrow> error + module"
  getattribute :: "module \<Rightarrow> string \<Rightarrow> error + pyobj"

subsection \<open>The current context of the running thread\<close>

text \<open>
  The interpreter keeps one current context per thread. \<^verbatim>\<open>ContextVar.set\<close> writes into
  it, \<^verbatim>\<open>contextvars.copy_context()\<close> returns a copy of it (always of the base type), and
  \<^verbatim>\<open>Context.run(f)\<close> makes the context current, calls \<open>f\<close>, and restores the previous
  current context whether \<open>f\<close> returns or raises. While the context is current it is the
  object that \<open>f\<close> writes to, so after the call its content is what was current when \<open>f\<close>
  ended. (\<^verbatim>\<open>run\<close> refuses a context that is already entered; the factory runs only the
  context it has just constructed.)
\<close>

record thread_state =
  current :: pycontext

definition copy_context :: "thread_state \<Rightarrow> pycontext" where
  "copy_context ts = Context Context_type (ctx_vars (current ts))"

text \<open>A string between single quotes, as the messages of the interpreter print names.\<close>

definition quoted :: "string \<Rightarrow> string" where
  "quoted s = CHR 0x27 # s @ [CHR 0x27]"

text \<open>
  \<^verbatim>\<open>cv.set(value)\<close> on an arbitrary object \<open>cv\<close>: only a context variable has the method;
  on the other objects of the model the attribute lookup raises \<^verbatim>\<open>AttributeError\<close>.
\<close>

definition no_attribute_set :: "pyobj \<Rightarrow> error" where
  "no_attribute_set obj =
     AttributeError (quoted (type_name obj) @ '' object has no attribute '' @ quoted ''set'')"

fun ContextVar_set :: "pyobj \<Rightarrow> pyobj \<Rightarrow> thread_state \<Rightarrow> error option \<times> thread_state" where
  "ContextVar_set (PyContextVar cv) v ts =
     (None, ts\<lparr>current :=
        Context (ctx_type (current ts)) (AList.update cv v (ctx_vars (current ts)))\<rparr>)"
| "ContextVar_set obj v ts = (Some (no_attribute_set obj), ts)"

definition Context_run ::
  "pycontext \<Rightarrow> (thread_state \<Rightarrow> 'a \<times> thread_state) \<Rightarrow> thread_state
     \<Rightarrow> ('a \<times> pycontext) \<times> thread_state" where
  "Context_run ctx f ts =
     (case f (ts\<lparr>current := ctx\<rparr>) of
        (r, ts') \<Rightarrow> ((r, current ts'), ts'\<lparr>current := current ts\<rparr>))"

subsection \<open>The reconstruction factory\<close>

text \<open>
  The first argument of \<^verbatim>\<open>_context_factory\<close>, as \<^verbatim>\<open>ContextReducer.__call__\<close> produces it:
  \<^verbatim>\<open>None\<close>, the function \<^verbatim>\<open>contextvars.copy_context\<close>, or a class. The second argument
  is a dictionary from \<^verbatim>\<open>(modulename, qualname)\<close> to values, kept in insertion order.
\<close>

datatype selector = Cls_None | Cls_copy_context | Cls_type pytype

type_synonym reference = "string \<times> string"
type_synonym cvars = "(reference \<times> pyobj) list"

text \<open>
  The inner function \<^verbatim>\<open>set_vars\<close>: the loop over \<^verbatim>\<open>mapping.items()\<close>. It stops at the
  first exception, which it returns together with the thread state reached.
\<close>

fun set_vars :: "resolver \<Rightarrow> cvars \<Rightarrow> thread_state \<Rightarrow> error option \<times> thread_state" where
  "set_vars env [] ts = (None, ts)"
| "set_vars env (((modulename, qualname), v) # rest) ts =
     (case import_module env modulename of
        Inl e \<Rightarrow> (Some e, ts)
      | Inr module \<Rightarrow>
          (case getattribute env module qualname of
             Inl e \<Rightarrow> (Some e, ts)
           | Inr cv \<Rightarrow>
               (case ContextVar_set cv v ts of
                  (Some e, ts') \<Rightarrow> (Some e, ts')
                | (None, ts') \<Rightarrow> set_vars env rest ts')))"

text \<open>
  The first statement of \<^verbatim>\<open>_context_factory\<close>: \<^verbatim>\<open>contextvars.Context()\<close> when \<^verbatim>\<open>cls\<close> is
  \<^verbatim>\<open>None\<close>, and \<^verbatim>\<open>cls()\<close> otherwise, which is a copy of the current context for
  \<^verbatim>\<open>copy_context\<close> and an empty context of the class for a class.
\<close>

definition construct :: "selector \<Rightarrow> thread_state \<Rightarrow> pycontext" where
  "construct cls ts =
     (case cls of
        Cls_None \<Rightarrow> Context Context_type []
      | Cls_copy_context \<Rightarrow> copy_context ts
      | Cls_type t \<Rightarrow> Context t [])"

text \<open>
  \<^verbatim>\<open>_context_factory\<close>. The result is the exception raised or the context returned, with
  the thread state after the call.
\<close>

definition context_factory ::
  "resolver \<Rightarrow> selector \<Rightarrow> cvars \<Rightarrow> thread_state \<Rightarrow> (error + pycontext) \<times> thread_state" where
  "context_factory env cls mapping ts =
     (case Context_run (construct cls ts) (set_vars env mapping) ts of
        ((Some e, ctx'), ts') \<Rightarrow> (Inl e, ts')
      | ((None, ctx'), ts') \<Rightarrow> (Inr ctx', ts'))"

subsection \<open>The class ContextReducer\<close>

record ContextReducer =
  picklable_contextvars :: "contextvar \<rightharpoonup> reference"
  auto_register :: bool
  factory_is_copy_context :: bool

definition ContextReducer_init :: "bool \<Rightarrow> bool \<Rightarrow> ContextReducer" where
  "ContextReducer_init auto_reg is_copy =
     \<lparr>picklable_contextvars = Map.empty, auto_register = auto_reg,
      factory_is_copy_context = is_copy\<rparr>"

text \<open>The loop of \<^verbatim>\<open>__call__\<close> over \<^verbatim>\<open>context.items()\<close>, filling the dictionary \<^verbatim>\<open>cvars\<close>.\<close>

fun reduce_items :: "(contextvar \<rightharpoonup> reference) \<Rightarrow> vars \<Rightarrow> cvars \<Rightarrow> cvars" where
  "reduce_items reg [] cvars = cvars"
| "reduce_items reg ((cv, v) # rest) cvars =
     (case reg cv of
        None \<Rightarrow> reduce_items reg rest cvars
      | Some mod_and_name \<Rightarrow> reduce_items reg rest (AList.update mod_and_name v cvars))"

text \<open>
  \<^verbatim>\<open>ContextReducer.__call__\<close>. The value returned by the source is the pair of
  \<^verbatim>\<open>_context_factory\<close> and the argument tuple \<^verbatim>\<open>(cls, cvars)\<close>; the model returns the
  argument tuple, the callable being always the same.
\<close>

fun ContextReducer_call :: "ContextReducer \<Rightarrow> pyobj \<Rightarrow> error + selector \<times> cvars" where
  "ContextReducer_call self (PyContext (Context t items)) =
     (let cvars = reduce_items (picklable_contextvars self) items [];
          cls = (if factory_is_copy_context self then Cls_copy_context
                 else if t = Context_type then Cls_None else Cls_type t)
      in Inr (cls, cvars))"
| "ContextReducer_call self x =
     Inl (TypeError (''Argument must be a Context object not '' @ type_name x))"

text \<open>
  The calls that \<^verbatim>\<open>register_contextvar\<close> makes into \<^verbatim>\<open>copyreg\<close> and \<^verbatim>\<open>stackless\<close> are
  recorded, with their arguments, in the order in which they are made (the second argument
  of \<^verbatim>\<open>copyreg.pickle\<close> is the reducer \<^verbatim>\<open>self\<close> whose method is running); whether \<^verbatim>\<open>stackless\<close> can be imported
  is a property of the process.
\<close>

datatype pickleflags = PICKLEFLAGS_PICKLE_CONTEXT

datatype call =
    Copyreg_pickle pytype
  | Pickle_flags pickleflags pickleflags
  | Pickle_flags_default pickleflags pickleflags

record process =
  stackless_importable :: bool
  calls :: "call list"

datatype module_arg = Module_obj module | Module_name string

text \<open>
  \<^verbatim>\<open>ContextReducer.register_contextvar\<close>. The result is the exception raised, if any,
  with the reducer and the process as the call leaves them.
\<close>

definition ContextReducer_register_contextvar ::
  "resolver \<Rightarrow> ContextReducer \<Rightarrow> process \<Rightarrow> pyobj \<Rightarrow> module_arg \<Rightarrow> string option \<Rightarrow> bool
     \<Rightarrow> error option \<times> ContextReducer \<times> process" where
  "ContextReducer_register_contextvar env self proc contextvar module qualname validate =
     (case contextvar of
        PyContextVar cv \<Rightarrow>
          (let modulename = (case module of Module_obj m \<Rightarrow> mod_name m | Module_name s \<Rightarrow> s);
               qualname = (case qualname of None \<Rightarrow> name cv | Some q \<Rightarrow> q);
               failure =
                 (if validate then
                    (case (case module of
                             Module_obj m \<Rightarrow> Inr m
                           | Module_name s \<Rightarrow> import_module env modulename) of
                       Inl e \<Rightarrow> Some e
                     | Inr m \<Rightarrow>
                         (case getattribute env m qualname of
                            Inl e \<Rightarrow> Some e
                          | Inr v \<Rightarrow>
                              if v \<noteq> PyContextVar cv then
                                Some (ValueError (''Not the same object: ContextVar '' @ name cv
                                        @ '' and global '' @ modulename @ ''.'' @ qualname))
                              else None))
                  else None)
           in case failure of
                Some e \<Rightarrow> (Some e, self, proc)
              | None \<Rightarrow>
                  (let self1 = self\<lparr>picklable_contextvars :=
                                 (picklable_contextvars self)(cv \<mapsto> (modulename, qualname))\<rparr>
                   in if auto_register self1 then
                        (None, self1\<lparr>auto_register := False\<rparr>,
                         proc\<lparr>calls := calls proc @ [Copyreg_pickle Context_type]
                                 @ (if stackless_importable proc
                                    then [Pickle_flags PICKLEFLAGS_PICKLE_CONTEXT
                                            PICKLEFLAGS_PICKLE_CONTEXT,
                                          Pickle_flags_default PICKLEFLAGS_PICKLE_CONTEXT
                                            PICKLEFLAGS_PICKLE_CONTEXT]
                                    else [])\<rparr>)
                      else (None, self1, proc)))
      | _ \<Rightarrow>
          (Some (TypeError (''Argument 1 must be a ContextVar object not '' @ type_name contextvar)),
           self, proc))"

text \<open>
  \<^verbatim>\<open>ContextReducer.unregister_contextvar\<close>: \<^verbatim>\<open>del\<close> on a dictionary raises
  \<^verbatim>\<open>KeyError\<close> for a key that is absent.
\<close>

definition ContextReducer_unregister_contextvar ::
  "ContextReducer \<Rightarrow> contextvar \<Rightarrow> error option \<times> ContextReducer" where
  "ContextReducer_unregister_contextvar self contextvar =
     (case picklable_contextvars self contextvar of
        None \<Rightarrow> (Some (KeyError contextvar), self)
      | Some _ \<Rightarrow>
          (None, self\<lparr>picklable_contextvars := (picklable_contextvars self)(contextvar := None)\<rparr>))"

subsection \<open>The module: the default reducer and its wrappers\<close>

record cvpickle =
  default_context_reducer :: ContextReducer
  interpreter :: process

definition cvpickle_init :: "bool \<Rightarrow> cvpickle" where
  "cvpickle_init stackless =
     \<lparr>default_context_reducer = ContextReducer_init True True,
      interpreter = \<lparr>stackless_importable = stackless, calls = []\<rparr>\<rparr>"

definition register_contextvar ::
  "resolver \<Rightarrow> cvpickle \<Rightarrow> pyobj \<Rightarrow> module_arg \<Rightarrow> string option \<Rightarrow> bool
     \<Rightarrow> error option \<times> cvpickle" where
  "register_contextvar env st contextvar module qualname validate =
     (case ContextReducer_register_contextvar env (default_context_reducer st) (interpreter st)
             contextvar module qualname validate of
        (r, self', proc') \<Rightarrow> (r, st\<lparr>default_context_reducer := self', interpreter := proc'\<rparr>))"

definition unregister_contextvar :: "cvpickle \<Rightarrow> contextvar \<Rightarrow> error option \<times> cvpickle" where
  "unregister_contextvar st contextvar =
     (case ContextReducer_unregister_contextvar (default_context_reducer st) contextvar of
        (r, self') \<Rightarrow> (r, st\<lparr>default_context_reducer := self'\<rparr>))"

subsection \<open>Auxiliary notions\<close>

text \<open>
  Re-resolving a portable reference, as both \<^verbatim>\<open>set_vars\<close> and the validation in
  \<^verbatim>\<open>register_contextvar\<close> do it: import the module, then look the qualified name up.
\<close>

definition resolve :: "resolver \<Rightarrow> reference \<Rightarrow> error + pyobj" where
  "resolve env ref =
     (case import_module env (fst ref) of
        Inl e \<Rightarrow> Inl e
      | Inr m \<Rightarrow> getattribute env m (snd ref))"

text \<open>The effect of a successful \<^verbatim>\<open>cv.set(value)\<close> on the thread state.\<close>

definition assign :: "contextvar \<Rightarrow> pyobj \<Rightarrow> thread_state \<Rightarrow> thread_state" where
  "assign cv v ts =
     ts\<lparr>current := Context (ctx_type (current ts)) (AList.update cv v (ctx_vars (current ts)))\<rparr>"

fun is_context :: "pyobj \<Rightarrow> bool" where
  "is_context (PyContext _) = True"
| "is_context _ = False"

text \<open>
  The exception with which one turn of the loop of \<^verbatim>\<open>set_vars\<close> fails for a reference, if
  it does: the exception of the import or of the attribute lookup, or, when the reference
  resolves to an object that is not a context variable, the \<^verbatim>\<open>AttributeError\<close> of its
  missing method \<^verbatim>\<open>set\<close>.
\<close>

definition entry_failure :: "resolver \<Rightarrow> reference \<Rightarrow> error option" where
  "entry_failure env ref =
     (case resolve env ref of
        Inl e \<Rightarrow> Some e
      | Inr (PyContextVar cv) \<Rightarrow> None
      | Inr obj \<Rightarrow> Some (no_attribute_set obj))"

text \<open>
  A history of the process: the calls of the two module-level functions, each with the
  name-resolution environment in force when it is made, run in order from a given state of
  the module. The result is the list of the exceptions raised (\<open>None\<close> for a call that
  returns) and the final state.
\<close>

datatype api_call =
    Register pyobj module_arg "string option" bool
  | Unregister contextvar

fun perform :: "resolver \<Rightarrow> api_call \<Rightarrow> cvpickle \<Rightarrow> error option \<times> cvpickle" where
  "perform env (Register contextvar module qualname validate) st =
     register_contextvar env st contextvar module qualname validate"
| "perform env (Unregister contextvar) st = unregister_contextvar st contextvar"

fun run :: "(resolver \<times> api_call) list \<Rightarrow> cvpickle \<Rightarrow> error option list \<times> cvpickle" where
  "run [] st = ([], st)"
| "run ((env, c) # cs) st =
     (case perform env c st of
        (r, st') \<Rightarrow> (case run cs st' of (rs, st'') \<Rightarrow> (r # rs, st'')))"

text \<open>A step of a history that is a registration and returned without raising.\<close>

fun registered_ok :: "(resolver \<times> api_call) \<times> error option \<Rightarrow> bool" where
  "registered_ok ((env, Register _ _ _ _), None) = True"
| "registered_ok _ = False"

text \<open>The calls of the activation: \<^verbatim>\<open>copyreg.pickle(contextvars.Context, self)\<close>, then, when
  \<^verbatim>\<open>stackless\<close> can be imported, \<^verbatim>\<open>pickle_flags\<close> and \<^verbatim>\<open>pickle_flags_default\<close>.\<close>

definition activation :: "bool \<Rightarrow> call list" where
  "activation stackless =
     Copyreg_pickle Context_type
       # (if stackless
          then [Pickle_flags PICKLEFLAGS_PICKLE_CONTEXT PICKLEFLAGS_PICKLE_CONTEXT,
                Pickle_flags_default PICKLEFLAGS_PICKLE_CONTEXT PICKLEFLAGS_PICKLE_CONTEXT]
          else [])"

text \<open>
  A small world for concrete runs: the module \<^verbatim>\<open>m\<close> has the attributes \<^verbatim>\<open>a\<close> and \<^verbatim>\<open>b\<close>,
  bound to two context variables, and \<^verbatim>\<open>n\<close>, bound to an integer; no other module can be
  imported. The exceptions of the import are those of \<^verbatim>\<open>importlib.import_module\<close>; the
  message of a failed lookup is shortened.
\<close>

definition example_env :: resolver where
  "example_env =
     \<lparr>import_module =
        (\<lambda>s. if s = ''m'' then Inr (Module 0 ''m'')
             else if s = [] then Inl (ValueError ''Empty module name'')
             else if hd s = CHR ''.'' then
               Inl (TypeError (''the '' @ quoted ''package''
                      @ '' argument is required to perform a relative import for '' @ quoted s))
             else Inl (ModuleNotFoundError (''No module named '' @ quoted s))),
      getattribute =
        (\<lambda>m q. if m = Module 0 ''m'' \<and> q = ''a'' then Inr (PyContextVar (ContextVar 1 ''a''))
               else if m = Module 0 ''m'' \<and> q = ''b'' then Inr (PyContextVar (ContextVar 2 ''b''))
               else if m = Module 0 ''m'' \<and> q = ''n'' then Inr (PyInt 5)
               else Inl (AttributeError (''Can't get attribute '' @ q)))\<rparr>"

text \<open>The registry after \<^verbatim>\<open>a\<close> and \<^verbatim>\<open>b\<close> have been registered in that world.\<close>

definition example_registry :: ContextReducer where
  "example_registry =
     \<lparr>picklable_contextvars =
        [ContextVar 1 ''a'' \<mapsto> (''m'', ''a''), ContextVar 2 ''b'' \<mapsto> (''m'', ''b'')],
      auto_register = False, factory_is_copy_context = False\<rparr>"

definition example_thread :: thread_state where
  "example_thread = \<lparr>current = Context Context_type [(ContextVar 9 ''z'', PyStr ''ambient'')]\<rparr>"

text \<open>
  A registry in which two variables share one reference, reached by two registrations
  without validation; and a context that holds both variables.
\<close>

definition collision_registry :: ContextReducer where
  "collision_registry =
     fst (snd (ContextReducer_register_contextvar example_env
       (fst (snd (ContextReducer_register_contextvar example_env
          (ContextReducer_init False False) \<lparr>stackless_importable = False, calls = []\<rparr>
          (PyContextVar (ContextVar 1 ''a'')) (Module_name ''m'') (Some ''x'') False)))
       \<lparr>stackless_importable = False, calls = []\<rparr>
       (PyContextVar (ContextVar 2 ''b'')) (Module_name ''m'') (Some ''x'') False))"

definition example_context :: pycontext where
  "example_context =
     Context Context_type [(ContextVar 1 ''a'', PyInt 1), (ContextVar 2 ''b'', PyInt 2)]"

text \<open>
  Two registries reached by registrations without validation: in the first both variables
  are registered under the reference of \<^verbatim>\<open>a\<close>; in the second \<^verbatim>\<open>a\<close> is registered under a
  module that cannot be imported.
\<close>

definition misnamed_registry :: ContextReducer where
  "misnamed_registry =
     fst (snd (ContextReducer_register_contextvar example_env
       (fst (snd (ContextReducer_register_contextvar example_env
          (ContextReducer_init False False) \<lparr>stackless_importable = False, calls = []\<rparr>
          (PyContextVar (ContextVar 1 ''a'')) (Module_name ''m'') (Some ''a'') False)))
       \<lparr>stackless_importable = False, calls = []\<rparr>
       (PyContextVar (ContextVar 2 ''b'')) (Module_name ''m'') (Some ''a'') False))"

definition unresolvable_registry :: ContextReducer where
  "unresolvable_registry =
     fst (snd (ContextReducer_register_contextvar example_env
       (ContextReducer_init False False) \<lparr>stackless_importable = False, calls = []\<rparr>
       (PyContextVar (ContextVar 1 ''a'')) (Module_name ''gone'') None False))"

text \<open>
  A history: a registration that fails validation, two that pass, and an unregistration.
\<close>

definition example_history :: "(resolver \<times> api_call) list" where
  "example_history =
     [(example_env, Register (PyContextVar (ContextVar 3 ''c'')) (Module_name ''m'') (Some ''a'') True),
      (example_env, Register (PyContextVar (ContextVar 1 ''a'')) (Module_name ''m'') None True),
      (example_env, Register (PyContextVar (ContextVar 2 ''b'')) (Module_obj (Module 0 ''m'')) None True),
      (example_env, Unregister (ContextVar 1 ''a''))]"

section \<open>Properties\<close>

text \<open>
  C8. Reduce input validation: calling the reducer on an argument that is not an instance
  of \<^verbatim>\<open>contextvars.Context\<close> raises a \<^verbatim>\<open>TypeError\<close>; on an instance (of the base type or
  of a subclass) it raises nothing and returns the reduced representation.
\<close>

theorem reduce_input_validation:
  "(\<not> is_context x \<longrightarrow> (\<exists>msg. ContextReducer_call self x = Inl (TypeError msg)))
   \<and> (is_context x \<longrightarrow> (\<exists>r. ContextReducer_call self x = Inr r))"
proof (cases x)
  case (PyContext c)
  then show ?thesis by (cases c) (simp add: Let_def)
qed simp_all

theorem reduce_input_validation_witness:
  "(\<exists>msg. ContextReducer_call (ContextReducer_init False False) (PyInt 3) = Inl (TypeError msg))
   \<and> (\<exists>r. ContextReducer_call (ContextReducer_init False False)
             (PyContext (Context Context_type [(ContextVar 1 ''a'', PyInt 7)])) = Inr r)"
  using reduce_input_validation [of "PyInt 3" "ContextReducer_init False False"]
        reduce_input_validation [of "PyContext (Context Context_type [(ContextVar 1 ''a'', PyInt 7)])"
                                    "ContextReducer_init False False"]
  by simp

text \<open>
  C3. Strategy selection: a reducer constructed with \<^verbatim>\<open>factory_is_copy_context=True\<close>
  returns \<^verbatim>\<open>contextvars.copy_context\<close> as selector whatever the concrete type of the
  context; a reducer constructed with \<^verbatim>\<open>factory_is_copy_context=False\<close> returns \<^verbatim>\<open>None\<close>
  for a context whose type is exactly \<^verbatim>\<open>contextvars.Context\<close> and the concrete type itself
  for an instance of a subclass.
\<close>

theorem strategy_selection:
  "(factory_is_copy_context self \<longrightarrow>
      (\<exists>cvars. ContextReducer_call self (PyContext (Context t items))
                 = Inr (Cls_copy_context, cvars)))
   \<and> (\<not> factory_is_copy_context self \<longrightarrow>
        (\<exists>cvars. ContextReducer_call self (PyContext (Context Context_type items))
                   = Inr (Cls_None, cvars)))
   \<and> (\<not> factory_is_copy_context self \<and> t \<noteq> Context_type \<longrightarrow>
        (\<exists>cvars. ContextReducer_call self (PyContext (Context t items))
                   = Inr (Cls_type t, cvars)))"
  by (simp add: Let_def)

theorem strategy_selection_witness:
  "(\<exists>cvars. ContextReducer_call (ContextReducer_init True True)
               (PyContext (Context (Context_subclass ''MyContext'') [])) = Inr (Cls_copy_context, cvars))
   \<and> (\<exists>cvars. ContextReducer_call (ContextReducer_init False False)
               (PyContext (Context Context_type [])) = Inr (Cls_None, cvars))
   \<and> (\<exists>cvars. ContextReducer_call (ContextReducer_init False False)
               (PyContext (Context (Context_subclass ''MyContext'') []))
                 = Inr (Cls_type (Context_subclass ''MyContext''), cvars))"
  using strategy_selection [of "ContextReducer_init True True" "Context_subclass ''MyContext''" "[]"]
        strategy_selection [of "ContextReducer_init False False" "Context_subclass ''MyContext''" "[]"]
  by (simp add: ContextReducer_init_def)

text \<open>
  C9. Unregister semantics: for a variable that has an entry in the registry,
  \<^verbatim>\<open>unregister_contextvar\<close> raises nothing and removes exactly that entry, every other
  entry and both flags of the reducer staying as they were; for a variable without an
  entry it raises \<^verbatim>\<open>KeyError\<close> and leaves the reducer unchanged.
\<close>

theorem unregister_semantics:
  "(picklable_contextvars self cv \<noteq> None \<longrightarrow>
      (\<exists>self'. ContextReducer_unregister_contextvar self cv = (None, self')
         \<and> picklable_contextvars self' cv = None
         \<and> (\<forall>cv'. cv' \<noteq> cv \<longrightarrow> picklable_contextvars self' cv' = picklable_contextvars self cv')
         \<and> auto_register self' = auto_register self
         \<and> factory_is_copy_context self' = factory_is_copy_context self))
   \<and> (picklable_contextvars self cv = None \<longrightarrow>
        ContextReducer_unregister_contextvar self cv = (Some (KeyError cv), self))"
  by (auto simp: ContextReducer_unregister_contextvar_def)

theorem unregister_semantics_witness:
  "(\<exists>self'. ContextReducer_unregister_contextvar example_registry (ContextVar 1 ''a'') = (None, self')
         \<and> picklable_contextvars self' (ContextVar 1 ''a'') = None
         \<and> picklable_contextvars self' (ContextVar 2 ''b'') = Some (''m'', ''b''))
   \<and> ContextReducer_unregister_contextvar example_registry (ContextVar 3 ''c'')
        = (Some (KeyError (ContextVar 3 ''c'')), example_registry)"
  using unregister_semantics [of example_registry "ContextVar 1 ''a''"]
        unregister_semantics [of example_registry "ContextVar 3 ''c''"]
  by (auto simp: example_registry_def)

text \<open>
  C4. Registration validation and atomicity: when \<^verbatim>\<open>register_contextvar\<close> is called for
  a context variable with \<^verbatim>\<open>validate=True\<close>, and the module resolves (it is given as a
  module, or its name is imported) and the qualified name (the variable's own name when
  none is given) is found in it but is not the variable itself, the call raises
  \<^verbatim>\<open>ValueError\<close> and leaves the reducer, hence its registry, and the process unchanged.
\<close>

theorem register_validation_atomic:
  assumes "(case module of Module_obj m' \<Rightarrow> Inr m' | Module_name s \<Rightarrow> import_module env s) = Inr m"
      and "getattribute env m (case qualname of None \<Rightarrow> name cv | Some q \<Rightarrow> q) = Inr v"
      and "v \<noteq> PyContextVar cv"
  shows "\<exists>msg. ContextReducer_register_contextvar env self proc (PyContextVar cv) module qualname True
                 = (Some (ValueError msg), self, proc)"
  using assms
  by (cases module) (simp_all add: ContextReducer_register_contextvar_def Let_def)

theorem register_validation_atomic_witness:
  "\<exists>msg. ContextReducer_register_contextvar example_env example_registry
            \<lparr>stackless_importable = False, calls = []\<rparr>
            (PyContextVar (ContextVar 3 ''c'')) (Module_name ''m'') (Some ''a'') True
          = (Some (ValueError msg), example_registry, \<lparr>stackless_importable = False, calls = []\<rparr>)"
  by (rule register_validation_atomic [where m = "Module 0 ''m''"
        and v = "PyContextVar (ContextVar 1 ''a'')"])
     (simp_all add: example_env_def)

subsection \<open>The loop of the reconstruction factory\<close>

lemma entry_failure_None:
  "entry_failure env ref = None \<longleftrightarrow> (\<exists>cv. resolve env ref = Inr (PyContextVar cv))"
  by (auto simp: entry_failure_def split: sum.splits pyobj.splits)

lemma set_vars_Cons_failure:
  "entry_failure env ref = Some e \<Longrightarrow> set_vars env ((ref, v) # rest) ts = (Some e, ts)"
  by (cases ref)
     (auto simp: entry_failure_def resolve_def split: sum.splits pyobj.splits)

lemma set_vars_Cons_snd:
  "resolve env ref = Inr (PyContextVar cv) \<Longrightarrow>
     set_vars env ((ref, v) # rest) ts = set_vars env rest (assign cv v ts)"
  by (cases ref) (auto simp: resolve_def assign_def split: sum.splits prod.splits)

lemma set_vars_Cons_None:
  "fst (set_vars env ((ref, v) # rest) ts) = None \<longleftrightarrow>
     (\<exists>cv. resolve env ref = Inr (PyContextVar cv) \<and> fst (set_vars env rest (assign cv v ts)) = None)"
proof (cases "entry_failure env ref")
  case None
  then obtain cv where cv: "resolve env ref = Inr (PyContextVar cv)"
    unfolding entry_failure_None by blast
  then show ?thesis by (simp add: set_vars_Cons_snd)
next
  case (Some e)
  then have "\<nexists>cv. resolve env ref = Inr (PyContextVar cv)"
    using entry_failure_None [of env ref] by simp
  with Some show ?thesis by (simp add: set_vars_Cons_failure)
qed

lemma map_of_assign:
  "map_of (ctx_vars (current (assign cv v ts))) = (map_of (ctx_vars (current ts)))(cv \<mapsto> v)"
  by (simp add: assign_def update_conv')

lemma keys_assign:
  "fst ` set (ctx_vars (current (assign cv v ts))) = insert cv (fst ` set (ctx_vars (current ts)))"
  by (simp add: assign_def dom_update)

lemma ctx_type_assign: "ctx_type (current (assign cv v ts)) = ctx_type (current ts)"
  by (simp add: assign_def)

lemma set_vars_all_resolve:
  "\<forall>(ref, v) \<in> set mapping. \<exists>cv. resolve env ref = Inr (PyContextVar cv) \<Longrightarrow>
     fst (set_vars env mapping ts) = None"
proof (induction mapping arbitrary: ts)
  case Nil
  then show ?case by simp
next
  case (Cons entry rest)
  obtain ref v where entry: "entry = (ref, v)" by (cases entry)
  from Cons.prems obtain cv where cv: "resolve env ref = Inr (PyContextVar cv)"
    by (auto simp: entry)
  from Cons.prems have "fst (set_vars env rest (assign cv v ts)) = None"
    by (intro Cons.IH) simp
  with cv show ?case
    unfolding entry set_vars_Cons_None by blast
qed

lemma set_vars_ctx_type:
  "fst (set_vars env mapping ts) = None \<Longrightarrow>
     ctx_type (current (snd (set_vars env mapping ts))) = ctx_type (current ts)"
proof (induction mapping arbitrary: ts)
  case Nil
  then show ?case by simp
next
  case (Cons entry rest)
  obtain ref v where entry: "entry = (ref, v)" by (cases entry)
  from Cons.prems obtain cv where cv: "resolve env ref = Inr (PyContextVar cv)"
    and rest: "fst (set_vars env rest (assign cv v ts)) = None"
    unfolding entry set_vars_Cons_None by blast
  show ?case
    using Cons.IH [OF rest] by (simp add: entry set_vars_Cons_snd [OF cv] ctx_type_assign)
qed

lemma set_vars_keys_mono:
  "fst (set_vars env mapping ts) = None \<Longrightarrow>
     fst ` set (ctx_vars (current ts))
       \<subseteq> fst ` set (ctx_vars (current (snd (set_vars env mapping ts))))"
proof (induction mapping arbitrary: ts)
  case Nil
  then show ?case by simp
next
  case (Cons entry rest)
  obtain ref v where entry: "entry = (ref, v)" by (cases entry)
  from Cons.prems obtain cv where cv: "resolve env ref = Inr (PyContextVar cv)"
    and rest: "fst (set_vars env rest (assign cv v ts)) = None"
    unfolding entry set_vars_Cons_None by blast
  show ?case
    using Cons.IH [OF rest] by (auto simp: entry set_vars_Cons_snd [OF cv] keys_assign)
qed

lemma set_vars_assigned:
  "fst (set_vars env mapping ts) = None \<Longrightarrow> (ref, v) \<in> set mapping \<Longrightarrow>
     \<exists>cv. resolve env ref = Inr (PyContextVar cv)
        \<and> cv \<in> fst ` set (ctx_vars (current (snd (set_vars env mapping ts))))"
proof (induction mapping arbitrary: ts)
  case Nil
  then show ?case by simp
next
  case (Cons entry rest)
  obtain ref' v' where entry: "entry = (ref', v')" by (cases entry)
  from Cons.prems(1) obtain cv' where cv': "resolve env ref' = Inr (PyContextVar cv')"
    and rest: "fst (set_vars env rest (assign cv' v' ts)) = None"
    unfolding entry set_vars_Cons_None by blast
  show ?case
  proof (cases "(ref, v) \<in> set rest")
    case True
    from Cons.IH [OF rest True] show ?thesis
      by (simp add: entry set_vars_Cons_snd [OF cv'])
  next
    case False
    with Cons.prems(2) have same: "ref = ref'" "v = v'" by (auto simp: entry)
    have "cv' \<in> fst ` set (ctx_vars (current (assign cv' v' ts)))"
      by (simp add: keys_assign)
    with set_vars_keys_mono [OF rest]
    have "cv' \<in> fst ` set (ctx_vars (current (snd (set_vars env rest (assign cv' v' ts)))))"
      by blast
    with cv' show ?thesis
      by (auto simp: entry same set_vars_Cons_snd [OF cv'])
  qed
qed

lemma set_vars_untouched:
  "fst (set_vars env mapping ts) = None \<Longrightarrow>
   \<forall>(ref, v) \<in> set mapping. resolve env ref \<noteq> Inr (PyContextVar cv) \<Longrightarrow>
     map_of (ctx_vars (current (snd (set_vars env mapping ts)))) cv
       = map_of (ctx_vars (current ts)) cv"
proof (induction mapping arbitrary: ts)
  case Nil
  then show ?case by simp
next
  case (Cons entry rest)
  obtain ref' v' where entry: "entry = (ref', v')" by (cases entry)
  from Cons.prems(1) obtain cv' where cv': "resolve env ref' = Inr (PyContextVar cv')"
    and rest: "fst (set_vars env rest (assign cv' v' ts)) = None"
    unfolding entry set_vars_Cons_None by blast
  from Cons.prems(2) cv' have neq: "cv' \<noteq> cv" by (auto simp: entry)
  from Cons.prems(2)
  have "\<forall>(ref, v) \<in> set rest. resolve env ref \<noteq> Inr (PyContextVar cv)" by simp
  from Cons.IH [OF rest this] neq show ?case
    by (simp add: entry set_vars_Cons_snd [OF cv'] map_of_assign)
qed

lemma set_vars_value:
  "fst (set_vars env mapping ts) = None \<Longrightarrow>
   (ref, v) \<in> set mapping \<Longrightarrow> resolve env ref = Inr (PyContextVar cv) \<Longrightarrow>
   \<forall>(ref', v') \<in> set mapping. resolve env ref' = Inr (PyContextVar cv) \<longrightarrow> v' = v \<Longrightarrow>
     map_of (ctx_vars (current (snd (set_vars env mapping ts)))) cv = Some v"
proof (induction mapping arbitrary: ts ref)
  case Nil
  then show ?case by simp
next
  case (Cons entry rest)
  obtain ref' v' where entry: "entry = (ref', v')" by (cases entry)
  from Cons.prems(1) obtain cv' where cv': "resolve env ref' = Inr (PyContextVar cv')"
    and rest: "fst (set_vars env rest (assign cv' v' ts)) = None"
    unfolding entry set_vars_Cons_None by blast
  from Cons.prems(4)
  have all: "\<forall>(ref', v') \<in> set rest. resolve env ref' = Inr (PyContextVar cv) \<longrightarrow> v' = v"
    by simp
  show ?case
  proof (cases "\<exists>(r, w) \<in> set rest. resolve env r = Inr (PyContextVar cv)")
    case True
    then obtain r w where rw: "(r, w) \<in> set rest" "resolve env r = Inr (PyContextVar cv)"
      by blast
    with all have "w = v" by blast
    with rw have "(r, v) \<in> set rest" by simp
    from Cons.IH [OF rest this rw(2) all] show ?thesis
      by (simp add: entry set_vars_Cons_snd [OF cv'])
  next
    case False
    then have untouched: "\<forall>(r, w) \<in> set rest. resolve env r \<noteq> Inr (PyContextVar cv)"
      by blast
    with Cons.prems(2,3) have here: "ref = ref'" "v = v'"
      by (auto simp: entry)
    with Cons.prems(3) cv' have "cv' = cv" by simp
    with set_vars_untouched [OF rest untouched] show ?thesis
      by (simp add: entry here set_vars_Cons_snd [OF cv'] map_of_assign)
  qed
qed

lemma set_vars_unresolved:
  assumes "(ref, v) \<in> set mapping" and "resolve env ref = Inl e"
  shows "fst (set_vars env mapping ts) \<noteq> None"
proof
  assume "fst (set_vars env mapping ts) = None"
  from set_vars_assigned [OF this assms(1)] assms(2) show False by simp
qed

lemma set_vars_first_failure:
  "fst (set_vars env mapping ts) = Some e \<Longrightarrow>
     \<exists>pre ref v post. mapping = pre @ (ref, v) # post
        \<and> (\<forall>entry \<in> set pre. \<exists>cv. resolve env (fst entry) = Inr (PyContextVar cv))
        \<and> entry_failure env ref = Some e"
proof (induction mapping arbitrary: ts)
  case Nil
  then show ?case by simp
next
  case (Cons entry rest)
  obtain ref v where entry: "entry = (ref, v)" by (cases entry)
  show ?case
  proof (cases "entry_failure env ref")
    case (Some e')
    with Cons.prems have "e' = e" by (simp add: entry set_vars_Cons_failure)
    with Some have "entry # rest = [] @ (ref, v) # rest"
      and "\<forall>entry \<in> set []. \<exists>cv. resolve env (fst entry) = Inr (PyContextVar cv)"
      and "entry_failure env ref = Some e"
      by (simp_all add: entry)
    then show ?thesis by blast
  next
    case None
    then obtain cv where cv: "resolve env ref = Inr (PyContextVar cv)"
      unfolding entry_failure_None by blast
    with Cons.prems have "fst (set_vars env rest (assign cv v ts)) = Some e"
      by (simp add: entry set_vars_Cons_snd)
    from Cons.IH [OF this] obtain pre ref' v' post where rest: "rest = pre @ (ref', v') # post"
      and pre: "\<forall>entry \<in> set pre. \<exists>cv. resolve env (fst entry) = Inr (PyContextVar cv)"
      and failure: "entry_failure env ref' = Some e"
      by blast
    from rest have "entry # rest = (entry # pre) @ (ref', v') # post" by simp
    moreover from pre cv
    have "\<forall>entry' \<in> set (entry # pre). \<exists>cv. resolve env (fst entry') = Inr (PyContextVar cv)"
      by (simp add: entry)
    ultimately show ?thesis using failure by blast
  qed
qed

lemma set_vars_append:
  "set_vars env (xs @ ys) ts =
     (case set_vars env xs ts of
        (Some e, ts') \<Rightarrow> (Some e, ts')
      | (None, ts') \<Rightarrow> set_vars env ys ts')"
proof (induction xs arbitrary: ts)
  case Nil
  then show ?case by simp
next
  case (Cons entry rest)
  obtain ref v where entry: "entry = (ref, v)" by (cases entry)
  show ?case
  proof (cases "entry_failure env ref")
    case (Some e)
    then show ?thesis by (simp add: entry set_vars_Cons_failure)
  next
    case None
    then obtain cv where cv: "resolve env ref = Inr (PyContextVar cv)"
      unfolding entry_failure_None by blast
    then show ?thesis by (simp add: entry set_vars_Cons_snd Cons.IH)
  qed
qed

lemma set_vars_last:
  assumes ok: "fst (set_vars env (pre @ (ref, v) # post) ts) = None"
      and cv: "resolve env ref = Inr (PyContextVar cv)"
      and post: "\<forall>(r, w) \<in> set post. resolve env r \<noteq> Inr (PyContextVar cv)"
  shows "map_of (ctx_vars (current (snd (set_vars env (pre @ (ref, v) # post) ts)))) cv = Some v"
proof -
  obtain r1 ts1 where pre: "set_vars env pre ts = (r1, ts1)" by (cases "set_vars env pre ts")
  with ok have r1: "r1 = None"
    by (cases r1) (simp_all add: set_vars_append)
  have whole: "set_vars env (pre @ (ref, v) # post) ts = set_vars env post (assign cv v ts1)"
    by (simp add: set_vars_append pre r1 set_vars_Cons_snd [OF cv])
  with ok have "fst (set_vars env post (assign cv v ts1)) = None" by simp
  from set_vars_untouched [OF this post] show ?thesis
    by (simp add: whole map_of_assign)
qed

lemma context_factory_result:
  "context_factory env cls mapping ts =
     (case fst (set_vars env mapping (ts\<lparr>current := construct cls ts\<rparr>)) of
        Some e \<Rightarrow> Inl e
      | None \<Rightarrow> Inr (current (snd (set_vars env mapping (ts\<lparr>current := construct cls ts\<rparr>)))),
      (snd (set_vars env mapping (ts\<lparr>current := construct cls ts\<rparr>)))\<lparr>current := current ts\<rparr>)"
  by (simp add: context_factory_def Context_run_def split: prod.splits option.splits)

text \<open>
  C5. Failure atomicity of reconstruction: if the reference of some entry of the mapping
  does not re-resolve (the import of the module or the lookup of the qualified name
  raises), then \<^verbatim>\<open>_context_factory\<close> raises, whatever the selector, and its result is that
  exception and no context. The exception is the one with which the first entry that
  fails, in the order of the mapping, fails: the exception of the resolution mechanism, or
  the \<^verbatim>\<open>AttributeError\<close> of \<^verbatim>\<open>set\<close> for an entry resolved to something that is not a
  context variable. When every other reference resolves to a context variable, it is the
  exception raised for the reference that does not resolve.
\<close>

theorem reconstruction_failure_atomic:
  assumes "(ref, v) \<in> set mapping" and "resolve env ref = Inl e0"
  shows "\<exists>e. fst (context_factory env cls mapping ts) = Inl e
           \<and> (\<exists>pre ref' v' post. mapping = pre @ (ref', v') # post
                 \<and> (\<forall>entry \<in> set pre. \<exists>cv. resolve env (fst entry) = Inr (PyContextVar cv))
                 \<and> entry_failure env ref' = Some e)
           \<and> ((\<forall>entry \<in> set mapping.
                  fst entry \<noteq> ref \<longrightarrow> (\<exists>cv. resolve env (fst entry) = Inr (PyContextVar cv)))
                \<longrightarrow> e = e0)"
proof -
  let ?run = "set_vars env mapping (ts\<lparr>current := construct cls ts\<rparr>)"
  from set_vars_unresolved [OF assms] obtain e where e: "fst ?run = Some e"
    by blast
  then have raised: "fst (context_factory env cls mapping ts) = Inl e"
    by (simp add: context_factory_result)
  from set_vars_first_failure [OF e]
  obtain pre ref' v' post where split: "mapping = pre @ (ref', v') # post"
    and pre: "\<forall>entry \<in> set pre. \<exists>cv. resolve env (fst entry) = Inr (PyContextVar cv)"
    and failure: "entry_failure env ref' = Some e"
    by blast
  have same: "e = e0"
    if others: "\<forall>entry \<in> set mapping.
                  fst entry \<noteq> ref \<longrightarrow> (\<exists>cv. resolve env (fst entry) = Inr (PyContextVar cv))"
  proof -
    have "ref' = ref"
    proof (rule ccontr)
      assume "ref' \<noteq> ref"
      moreover have "(ref', v') \<in> set mapping" by (simp add: split)
      ultimately have "\<exists>cv. resolve env ref' = Inr (PyContextVar cv)"
        using others by fastforce
      with failure show False by (simp add: entry_failure_None [symmetric])
    qed
    with failure assms(2) show ?thesis by (simp add: entry_failure_def)
  qed
  have "\<exists>pre ref' v' post. mapping = pre @ (ref', v') # post
          \<and> (\<forall>entry \<in> set pre. \<exists>cv. resolve env (fst entry) = Inr (PyContextVar cv))
          \<and> entry_failure env ref' = Some e"
    using split pre failure by blast
  with raised same show ?thesis by blast
qed

theorem reconstruction_failure_atomic_witness:
  "fst (context_factory example_env Cls_copy_context
          [((''m'', ''a''), PyInt 1), ((''gone'', ''b''), PyInt 2)] example_thread)
     = Inl (ModuleNotFoundError (''No module named '' @ quoted ''gone''))
   \<and> resolve example_env (''gone'', ''b'') = Inl (ModuleNotFoundError (''No module named '' @ quoted ''gone''))
   \<and> fst (context_factory example_env Cls_None
          [(([], ''a''), PyInt 1), ((''m'', ''b''), PyInt 2)] example_thread)
     = Inl (ValueError ''Empty module name'')
   \<and> resolve example_env ([], ''a'') = Inl (ValueError ''Empty module name'')"
proof -
  have gone: "resolve example_env (''gone'', ''b'') = Inl (ModuleNotFoundError (''No module named '' @ quoted ''gone''))"
    and empty: "resolve example_env ([], ''a'') = Inl (ValueError ''Empty module name'')"
    and others: "resolve example_env (''m'', ''a'') = Inr (PyContextVar (ContextVar 1 ''a''))"
      "resolve example_env (''m'', ''b'') = Inr (PyContextVar (ContextVar 2 ''b''))"
    by (simp_all add: resolve_def example_env_def)
  from reconstruction_failure_atomic [of "(''gone'', ''b'')" "PyInt 2"
      "[((''m'', ''a''), PyInt 1), ((''gone'', ''b''), PyInt 2)]" example_env _
      Cls_copy_context example_thread, OF _ gone]
  have "fst (context_factory example_env Cls_copy_context
          [((''m'', ''a''), PyInt 1), ((''gone'', ''b''), PyInt 2)] example_thread)
     = Inl (ModuleNotFoundError (''No module named '' @ quoted ''gone''))"
    using others by auto
  moreover
  from reconstruction_failure_atomic [of "([], ''a'')" "PyInt 1"
      "[(([], ''a''), PyInt 1), ((''m'', ''b''), PyInt 2)]" example_env _
      Cls_None example_thread, OF _ empty]
  have "fst (context_factory example_env Cls_None
          [(([], ''a''), PyInt 1), ((''m'', ''b''), PyInt 2)] example_thread)
     = Inl (ValueError ''Empty module name'')"
    using others by auto
  ultimately show ?thesis using gone empty by simp
qed

text \<open>
  C6. Reconstruction isolation: after \<^verbatim>\<open>_context_factory\<close> has returned or raised, the
  current context of the calling thread is what it was before the call. When it returns a
  context, the assignments went into that context: it has the type of the context that was
  constructed, every reference of the mapping has been re-resolved to a context variable,
  every variable to which a reference resolves has in it the value of the last entry, in
  the order of the mapping, whose reference resolves to it, and every other variable has in
  it what the constructed context had.
\<close>

theorem reconstruction_isolation:
  "current (snd (context_factory env cls mapping ts)) = current ts
   \<and> (\<forall>c. fst (context_factory env cls mapping ts) = Inr c \<longrightarrow>
          ctx_type c = ctx_type (construct cls ts)
        \<and> (\<forall>(ref, v) \<in> set mapping. \<exists>cv. resolve env ref = Inr (PyContextVar cv))
        \<and> (\<forall>pre ref v post cv.
              mapping = pre @ (ref, v) # post \<and> resolve env ref = Inr (PyContextVar cv)
              \<and> (\<forall>(r, w) \<in> set post. resolve env r \<noteq> Inr (PyContextVar cv))
              \<longrightarrow> map_of (ctx_vars c) cv = Some v)
        \<and> (\<forall>cv. (\<forall>(r, w) \<in> set mapping. resolve env r \<noteq> Inr (PyContextVar cv))
              \<longrightarrow> map_of (ctx_vars c) cv = map_of (ctx_vars (construct cls ts)) cv))"
proof -
  let ?start = "ts\<lparr>current := construct cls ts\<rparr>"
  let ?run = "set_vars env mapping ?start"
  have returned: "ctx_type c = ctx_type (construct cls ts)
        \<and> (\<forall>(ref, v) \<in> set mapping. \<exists>cv. resolve env ref = Inr (PyContextVar cv))
        \<and> (\<forall>pre ref v post cv.
              mapping = pre @ (ref, v) # post \<and> resolve env ref = Inr (PyContextVar cv)
              \<and> (\<forall>(r, w) \<in> set post. resolve env r \<noteq> Inr (PyContextVar cv))
              \<longrightarrow> map_of (ctx_vars c) cv = Some v)
        \<and> (\<forall>cv. (\<forall>(r, w) \<in> set mapping. resolve env r \<noteq> Inr (PyContextVar cv))
              \<longrightarrow> map_of (ctx_vars c) cv = map_of (ctx_vars (construct cls ts)) cv)"
    if "fst (context_factory env cls mapping ts) = Inr c" for c
  proof -
    from that have ok: "fst ?run = None" and c: "c = current (snd ?run)"
      by (auto simp: context_factory_result split: option.splits)
    from set_vars_ctx_type [OF ok] have "ctx_type c = ctx_type (construct cls ts)"
      by (simp add: c)
    moreover have "\<forall>(ref, v) \<in> set mapping. \<exists>cv. resolve env ref = Inr (PyContextVar cv)"
      using set_vars_assigned [OF ok] by blast
    moreover have "map_of (ctx_vars c) cv = Some v"
      if "mapping = pre @ (ref, v) # post" "resolve env ref = Inr (PyContextVar cv)"
        "\<forall>(r, w) \<in> set post. resolve env r \<noteq> Inr (PyContextVar cv)"
      for pre ref v post cv
      using set_vars_last [of env pre ref v post ?start cv] ok that
      by (simp add: c)
    moreover have "map_of (ctx_vars c) cv = map_of (ctx_vars (construct cls ts)) cv"
      if "\<forall>(r, w) \<in> set mapping. resolve env r \<noteq> Inr (PyContextVar cv)" for cv
      using set_vars_untouched [OF ok that] by (simp add: c)
    ultimately show ?thesis by blast
  qed
  have "current (snd (context_factory env cls mapping ts)) = current ts"
    by (simp add: context_factory_result)
  with returned show ?thesis by blast
qed

theorem reconstruction_isolation_witness:
  "current (snd (context_factory example_env Cls_copy_context
                   [((''m'', ''a''), PyInt 1), ((''m'', ''b''), PyStr ''x'')] example_thread))
     = current example_thread
   \<and> (\<exists>c. fst (context_factory example_env Cls_copy_context
                  [((''m'', ''a''), PyInt 1), ((''m'', ''b''), PyStr ''x'')] example_thread)
            = Inr c
          \<and> ctx_type c = Context_type
          \<and> map_of (ctx_vars c) (ContextVar 1 ''a'') = Some (PyInt 1)
          \<and> map_of (ctx_vars c) (ContextVar 2 ''b'') = Some (PyStr ''x'')
          \<and> map_of (ctx_vars c) (ContextVar 9 ''z'') = Some (PyStr ''ambient''))"
proof -
  let ?mapping = "[((''m'', ''a''), PyInt 1), ((''m'', ''b''), PyStr ''x'')]"
  have a: "resolve example_env (''m'', ''a'') = Inr (PyContextVar (ContextVar 1 ''a''))"
    and b: "resolve example_env (''m'', ''b'') = Inr (PyContextVar (ContextVar 2 ''b''))"
    by (simp_all add: resolve_def example_env_def)
  obtain c where c: "fst (context_factory example_env Cls_copy_context ?mapping example_thread)
                       = Inr c"
    by (simp add: context_factory_def Context_run_def construct_def copy_context_def
        example_env_def example_thread_def)
  note iso = reconstruction_isolation [of example_env Cls_copy_context ?mapping example_thread]
  from iso have ambient:
    "current (snd (context_factory example_env Cls_copy_context ?mapping example_thread))
       = current example_thread"
    by blast
  from iso c have "ctx_type c = ctx_type (construct Cls_copy_context example_thread)"
    by blast
  then have type: "ctx_type c = Context_type"
    by (simp add: construct_def copy_context_def)
  from iso c have last: "\<And>pre ref v post cv.
      ?mapping = pre @ (ref, v) # post \<Longrightarrow> resolve example_env ref = Inr (PyContextVar cv)
      \<Longrightarrow> \<forall>(r, w) \<in> set post. resolve example_env r \<noteq> Inr (PyContextVar cv)
      \<Longrightarrow> map_of (ctx_vars c) cv = Some v"
    by blast
  have va: "map_of (ctx_vars c) (ContextVar 1 ''a'') = Some (PyInt 1)"
    by (rule last [of "[]" "(''m'', ''a'')" "PyInt 1" "[((''m'', ''b''), PyStr ''x'')]"])
       (simp_all add: a b)
  have vb: "map_of (ctx_vars c) (ContextVar 2 ''b'') = Some (PyStr ''x'')"
    by (rule last [of "[((''m'', ''a''), PyInt 1)]" "(''m'', ''b'')" "PyStr ''x''" "[]"])
       (simp_all add: b)
  from iso c have "(\<forall>(r, w) \<in> set ?mapping. resolve example_env r \<noteq> Inr (PyContextVar (ContextVar 9 ''z'')))
      \<longrightarrow> map_of (ctx_vars c) (ContextVar 9 ''z'')
            = map_of (ctx_vars (construct Cls_copy_context example_thread)) (ContextVar 9 ''z'')"
    by blast
  then have vz: "map_of (ctx_vars c) (ContextVar 9 ''z'') = Some (PyStr ''ambient'')"
    by (simp add: a b construct_def copy_context_def example_thread_def)
  from ambient c type va vb vz show ?thesis by blast
qed

subsection \<open>The loop of the reducer\<close>

lemma update_member:
  "(k', v') \<in> set (AList.update k v al) \<Longrightarrow> (k', v') = (k, v) \<or> (k', v') \<in> set al"
  by (induction al) (auto split: if_splits)

lemma reduce_items_origin:
  "(ref, v) \<in> set (reduce_items reg items acc) \<Longrightarrow>
     (ref, v) \<in> set acc \<or> (\<exists>cv. (cv, v) \<in> set items \<and> reg cv = Some ref)"
proof (induction items arbitrary: acc)
  case Nil
  then show ?case by simp
next
  case (Cons item rest)
  obtain cv w where item: "item = (cv, w)" by (cases item)
  show ?case
  proof (cases "reg cv")
    case None
    with Cons.prems have "(ref, v) \<in> set (reduce_items reg rest acc)"
      by (simp add: item)
    from Cons.IH [OF this] show ?thesis by auto
  next
    case (Some r)
    with Cons.prems have "(ref, v) \<in> set (reduce_items reg rest (AList.update r w acc))"
      by (simp add: item)
    from Cons.IH [OF this] show ?thesis
      using Some by (auto simp: item dest: update_member)
  qed
qed

lemma reduce_items_keys:
  "fst ` set (reduce_items reg items acc)
     = fst ` set acc \<union> {ref. \<exists>cv \<in> fst ` set items. reg cv = Some ref}"
proof (induction items arbitrary: acc)
  case Nil
  then show ?case by simp
next
  case (Cons item rest)
  obtain cv w where item: "item = (cv, w)" by (cases item)
  show ?case
  proof (cases "reg cv")
    case None
    then show ?thesis
      by (auto simp: item Cons.IH)
  next
    case (Some r)
    then show ?thesis
      by (auto simp: item Cons.IH dom_update)
  qed
qed


lemma reduce_items_append:
  "reduce_items reg (xs @ ys) acc = reduce_items reg ys (reduce_items reg xs acc)"
proof (induction xs arbitrary: acc)
  case Nil
  then show ?case by simp
next
  case (Cons item rest)
  obtain cv w where item: "item = (cv, w)" by (cases item)
  show ?case
    by (cases "reg cv") (simp_all add: item Cons.IH)
qed

lemma reduce_items_untouched:
  "\<forall>cv \<in> fst ` set items. reg cv \<noteq> Some ref \<Longrightarrow>
     map_of (reduce_items reg items acc) ref = map_of acc ref"
proof (induction items arbitrary: acc)
  case Nil
  then show ?case by simp
next
  case (Cons item rest)
  obtain cv w where item: "item = (cv, w)" by (cases item)
  from Cons.prems have rest: "\<forall>cv \<in> fst ` set rest. reg cv \<noteq> Some ref"
    and here: "reg cv \<noteq> Some ref"
    by (simp_all add: item)
  show ?case
    using here by (cases "reg cv") (simp_all add: item Cons.IH [OF rest] update_conv')
qed

lemma reduce_items_last:
  assumes "reg cv = Some ref" and "\<forall>cv' \<in> fst ` set post. reg cv' \<noteq> Some ref"
  shows "map_of (reduce_items reg (pre @ (cv, v) # post) acc) ref = Some v"
  using assms
  by (simp add: reduce_items_append reduce_items_untouched update_conv')

text \<open>
  A registration by module name that passes validation stores a reference that resolves,
  in the environment of the registration, to the variable registered.
\<close>

lemma validated_registration_resolves:
  assumes "ContextReducer_register_contextvar env self proc (PyContextVar cv) (Module_name s)
             qualname True = (None, self', proc')"
  shows "\<exists>ref. picklable_contextvars self' cv = Some ref
             \<and> resolve env ref = Inr (PyContextVar cv)"
proof -
  let ?q = "case qualname of None \<Rightarrow> name cv | Some q \<Rightarrow> q"
  from assms have "picklable_contextvars self' cv = Some (s, ?q)"
    and "resolve env (s, ?q) = Inr (PyContextVar cv)"
    by (auto simp: ContextReducer_register_contextvar_def resolve_def Let_def
        split: option.splits sum.splits if_splits)
  then show ?thesis by blast
qed

lemma example_registry_reached:
  "fst (snd (ContextReducer_register_contextvar example_env
       (fst (snd (ContextReducer_register_contextvar example_env
          (ContextReducer_init False False) \<lparr>stackless_importable = False, calls = []\<rparr>
          (PyContextVar (ContextVar 1 ''a'')) (Module_name ''m'') None True)))
       \<lparr>stackless_importable = False, calls = []\<rparr>
       (PyContextVar (ContextVar 2 ''b'')) (Module_name ''m'') None True)) = example_registry"
  by (simp add: ContextReducer_register_contextvar_def ContextReducer_init_def example_env_def
      example_registry_def Let_def)

text \<open>
  C1. Round trip, as the code has it: take a context whose keys, pairwise distinct as the
  keys of a context are, are all registered, each under a reference that re-resolves, in
  the environment of the reconstruction, to the variable itself. Then the reducer returns a
  selector and a mapping, \<^verbatim>\<open>_context_factory\<close> applied to them returns a context, and in
  that context every variable of the original context has the value it has there. With a
  reducer that does not use \<^verbatim>\<open>copy_context\<close> the returned context has moreover the type and
  exactly the items of the original one; with \<^verbatim>\<open>copy_context\<close> it starts as a copy of the
  current context of the reconstructing thread and may hold further variables from there.
\<close>

theorem round_trip:
  assumes wf: "wf_context ctx"
      and reg: "\<forall>cv \<in> fst ` set (ctx_vars ctx).
                  \<exists>ref. picklable_contextvars self cv = Some ref
                      \<and> resolve env ref = Inr (PyContextVar cv)"
  shows "\<exists>cls cvars c.
           ContextReducer_call self (PyContext ctx) = Inr (cls, cvars)
         \<and> fst (context_factory env cls cvars ts) = Inr c
         \<and> (\<forall>(cv, v) \<in> set (ctx_vars ctx). map_of (ctx_vars c) cv = Some v)
         \<and> (\<not> factory_is_copy_context self \<longrightarrow>
               ctx_type c = ctx_type ctx \<and> map_of (ctx_vars c) = map_of (ctx_vars ctx))"
proof -
  obtain t items where ctx: "ctx = Context t items" by (cases ctx)
  define registry where "registry = picklable_contextvars self"
  define cvars where "cvars = reduce_items registry items []"
  define cls where "cls = (if factory_is_copy_context self then Cls_copy_context
                           else if t = Context_type then Cls_None else Cls_type t)"
  define start where "start = ts\<lparr>current := construct cls ts\<rparr>"
  define c where "c = current (snd (set_vars env cvars start))"
  from wf have dist: "distinct (map fst items)" by (simp add: wf_context_def ctx)
  have call: "ContextReducer_call self (PyContext ctx) = Inr (cls, cvars)"
    by (simp add: ctx cvars_def cls_def registry_def Let_def)
  have origin: "\<exists>cv. (cv, v) \<in> set items \<and> registry cv = Some ref
                   \<and> resolve env ref = Inr (PyContextVar cv)"
    if "(ref, v) \<in> set cvars" for ref v
  proof -
    from that reduce_items_origin [of ref v registry items "[]"]
    obtain cv where cv: "(cv, v) \<in> set items" "registry cv = Some ref"
      by (auto simp: cvars_def)
    from cv(1) have "cv \<in> fst ` set (ctx_vars ctx)" by (force simp: ctx)
    with reg cv(2) have "resolve env ref = Inr (PyContextVar cv)"
      by (auto simp: registry_def)
    with cv show ?thesis by blast
  qed
  then have "\<forall>(ref, v) \<in> set cvars. \<exists>cv. resolve env ref = Inr (PyContextVar cv)"
    by blast
  then have ok: "fst (set_vars env cvars start) = None"
    by (rule set_vars_all_resolve)
  then have result: "fst (context_factory env cls cvars ts) = Inr c"
    by (simp add: context_factory_result c_def start_def)
  have "value": "map_of (ctx_vars c) cv = Some v" if item: "(cv, v) \<in> set items" for cv v
  proof -
    from item have "cv \<in> fst ` set (ctx_vars ctx)" by (force simp: ctx)
    with reg obtain ref where ref: "registry cv = Some ref"
      "resolve env ref = Inr (PyContextVar cv)"
      by (auto simp: registry_def)
    from item ref(1) have "ref \<in> fst ` set cvars"
      unfolding cvars_def reduce_items_keys by force
    then obtain w where w: "(ref, w) \<in> set cvars" by auto
    have same: "v' = v" if "(ref', v') \<in> set cvars"
      "resolve env ref' = Inr (PyContextVar cv)" for ref' v'
    proof -
      from origin [OF that(1)] that(2) have "(cv, v') \<in> set items" by auto
      with dist item show ?thesis by (meson eq_key_imp_eq_value)
    qed
    from same [OF w ref(2)] w have "(ref, v) \<in> set cvars" by simp
    from set_vars_value [OF ok this ref(2)] same show ?thesis
      unfolding c_def by blast
  qed
  have exact: "ctx_type c = t \<and> map_of (ctx_vars c) = map_of items"
    if nocopy: "\<not> factory_is_copy_context self"
  proof
    from nocopy have empty: "construct cls ts = Context t []"
      by (simp add: cls_def construct_def)
    from set_vars_ctx_type [OF ok] show "ctx_type c = t"
      by (simp add: c_def start_def empty)
    show "map_of (ctx_vars c) = map_of items"
    proof
      fix cv
      show "map_of (ctx_vars c) cv = map_of items cv"
      proof (cases "cv \<in> fst ` set items")
        case True
        then obtain v where v: "(cv, v) \<in> set items" by auto
        with dist have "map_of items cv = Some v" by simp
        with "value" [OF v] show ?thesis by simp
      next
        case False
        have "\<forall>(ref, v) \<in> set cvars. resolve env ref \<noteq> Inr (PyContextVar cv)"
        proof (clarify)
          fix ref v
          assume "(ref, v) \<in> set cvars" "resolve env ref = Inr (PyContextVar cv)"
          with origin [of ref v] have "(cv, v) \<in> set items" by auto
          with False show False by force
        qed
        from set_vars_untouched [OF ok this] have "map_of (ctx_vars c) cv = None"
          by (simp add: c_def start_def empty)
        moreover from False have "map_of items cv = None"
          by (simp add: map_of_eq_None_iff)
        ultimately show ?thesis by simp
      qed
    qed
  qed
  from call result "value" exact show ?thesis
    by (auto simp: ctx)
qed

theorem round_trip_witness:
  "wf_context example_context
   \<and> (\<exists>cls cvars c.
         ContextReducer_call (example_registry\<lparr>factory_is_copy_context := True\<rparr>)
           (PyContext example_context) = Inr (cls, cvars)
       \<and> fst (context_factory example_env cls cvars example_thread) = Inr c
       \<and> map_of (ctx_vars c) (ContextVar 1 ''a'') = Some (PyInt 1)
       \<and> map_of (ctx_vars c) (ContextVar 2 ''b'') = Some (PyInt 2))"
proof -
  have wf: "wf_context example_context"
    by (simp add: wf_context_def example_context_def)
  have reg: "\<forall>cv \<in> fst ` set (ctx_vars example_context).
               \<exists>ref. picklable_contextvars (example_registry\<lparr>factory_is_copy_context := True\<rparr>) cv
                        = Some ref
                   \<and> resolve example_env ref = Inr (PyContextVar cv)"
    by (simp add: example_context_def example_registry_def example_env_def resolve_def)
  from round_trip [OF wf reg, of example_thread] wf show ?thesis
    by (auto simp: example_context_def)
qed

text \<open>
  Without the condition on the references the round trip does not give the values back,
  although every key of the context is registered. With both variables registered under
  the reference of \<^verbatim>\<open>a\<close>, the context that holds \<^verbatim>\<open>a = 1\<close> and \<^verbatim>\<open>b = 2\<close> comes back as a
  context that holds \<^verbatim>\<open>a = 2\<close> and no \<^verbatim>\<open>b\<close>; with \<^verbatim>\<open>a\<close> registered under a module that
  cannot be imported, the factory raises and no context comes back.
\<close>

theorem round_trip_counterexample:
  "picklable_contextvars misnamed_registry (ContextVar 1 ''a'') = Some (''m'', ''a'')
   \<and> picklable_contextvars misnamed_registry (ContextVar 2 ''b'') = Some (''m'', ''a'')
   \<and> ContextReducer_call misnamed_registry (PyContext example_context)
       = Inr (Cls_None, [((''m'', ''a''), PyInt 2)])
   \<and> fst (context_factory example_env Cls_None [((''m'', ''a''), PyInt 2)] example_thread)
       = Inr (Context Context_type [(ContextVar 1 ''a'', PyInt 2)])
   \<and> map_of (ctx_vars example_context) (ContextVar 1 ''a'') = Some (PyInt 1)
   \<and> map_of [(ContextVar 1 ''a'', PyInt 2)] (ContextVar 1 ''a'') = Some (PyInt 2)
   \<and> map_of (ctx_vars example_context) (ContextVar 2 ''b'') = Some (PyInt 2)
   \<and> map_of [(ContextVar 1 ''a'', PyInt 2)] (ContextVar 2 ''b'') = None
   \<and> picklable_contextvars unresolvable_registry (ContextVar 1 ''a'') = Some (''gone'', ''a'')
   \<and> ContextReducer_call unresolvable_registry
         (PyContext (Context Context_type [(ContextVar 1 ''a'', PyInt 1)]))
       = Inr (Cls_None, [((''gone'', ''a''), PyInt 1)])
   \<and> fst (context_factory example_env Cls_None [((''gone'', ''a''), PyInt 1)] example_thread)
       = Inl (ModuleNotFoundError (''No module named '' @ quoted ''gone''))"
  by (simp add: misnamed_registry_def unresolvable_registry_def
      ContextReducer_register_contextvar_def ContextReducer_init_def Let_def
      example_context_def example_env_def example_thread_def
      context_factory_def Context_run_def construct_def)

subsection \<open>Counting the entries of the reduced mapping\<close>





lemma collision_registry_eq:
  "collision_registry =
     \<lparr>picklable_contextvars =
        [ContextVar 1 ''a'' \<mapsto> (''m'', ''x''), ContextVar 2 ''b'' \<mapsto> (''m'', ''x'')],
      auto_register = False, factory_is_copy_context = False\<rparr>"
  by (simp add: collision_registry_def ContextReducer_register_contextvar_def
      ContextReducer_init_def Let_def)



text \<open>
  C2. Privacy boundary, as the code has it: for every context and every registry the
  reducer raises nothing and the mapping it returns holds only pairs (reference, value) of
  context keys that are in the registry, its references being exactly the references of
  those keys, so that an unregistered key contributes nothing. When the keys of the context
  are pairwise distinct and no two registered keys of the context share a reference, the
  entries are exactly those pairs. After a variable has been unregistered, reducing a
  context that holds it yields only pairs of the other keys.
\<close>

theorem privacy_boundary:
  "\<exists>cls cvars.
     ContextReducer_call self (PyContext (Context t items)) = Inr (cls, cvars)
   \<and> set cvars \<subseteq> {(ref, v). \<exists>cv. (cv, v) \<in> set items \<and> picklable_contextvars self cv = Some ref}
   \<and> fst ` set cvars = {ref. \<exists>cv \<in> fst ` set items. picklable_contextvars self cv = Some ref}
   \<and> (distinct (map fst items)
        \<and> inj_on (picklable_contextvars self)
             {cv \<in> fst ` set items. picklable_contextvars self cv \<noteq> None}
        \<longrightarrow> set cvars
              = {(ref, v). \<exists>cv. (cv, v) \<in> set items \<and> picklable_contextvars self cv = Some ref})
   \<and> (\<forall>self'. ContextReducer_unregister_contextvar self cv0 = (None, self') \<longrightarrow>
         (\<exists>cls' cvars'.
            ContextReducer_call self' (PyContext (Context t items)) = Inr (cls', cvars')
          \<and> set cvars' \<subseteq> {(ref, v). \<exists>cv. cv \<noteq> cv0 \<and> (cv, v) \<in> set items
                                     \<and> picklable_contextvars self cv = Some ref}))"
proof -
  define registry where "registry = picklable_contextvars self"
  define cvars where "cvars = reduce_items registry items []"
  have call: "\<exists>cls. ContextReducer_call self (PyContext (Context t items)) = Inr (cls, cvars)"
    by (simp add: cvars_def registry_def Let_def)
  have sound: "set cvars \<subseteq> {(ref, v). \<exists>cv. (cv, v) \<in> set items \<and> registry cv = Some ref}"
    using reduce_items_origin [of _ _ registry items "[]"] by (auto simp: cvars_def)
  have keys: "fst ` set cvars = {ref. \<exists>cv \<in> fst ` set items. registry cv = Some ref}"
    by (simp add: cvars_def reduce_items_keys)
  have exact: "set cvars = {(ref, v). \<exists>cv. (cv, v) \<in> set items \<and> registry cv = Some ref}"
    if dist: "distinct (map fst items)"
      and inj: "inj_on registry {cv \<in> fst ` set items. registry cv \<noteq> None}"
  proof
    show "set cvars \<subseteq> {(ref, v). \<exists>cv. (cv, v) \<in> set items \<and> registry cv = Some ref}"
      by (rule sound)
    show "{(ref, v). \<exists>cv. (cv, v) \<in> set items \<and> registry cv = Some ref} \<subseteq> set cvars"
    proof (clarify)
      fix ref v cv
      assume item: "(cv, v) \<in> set items" and cv: "registry cv = Some ref"
      from item obtain pre post where split: "items = pre @ (cv, v) # post"
        by (meson split_list)
      have "registry cv' \<noteq> Some ref" if "cv' \<in> fst ` set post" for cv'
      proof
        assume same: "registry cv' = Some ref"
        from that same have "cv' \<in> {cv \<in> fst ` set items. registry cv \<noteq> None}"
          by (auto simp: split)
        moreover from item cv have "cv \<in> {cv \<in> fst ` set items. registry cv \<noteq> None}"
          by force
        moreover from same cv have "registry cv' = registry cv" by simp
        ultimately have "cv' = cv"
          using inj by (meson inj_onD)
        with that dist show False by (auto simp: split)
      qed
      then have "\<forall>cv' \<in> fst ` set post. registry cv' \<noteq> Some ref" by blast
      from reduce_items_last [OF cv this] have "map_of cvars ref = Some v"
        by (simp add: cvars_def split)
      then show "(ref, v) \<in> set cvars" by (rule map_of_SomeD)
    qed
  qed
  have after: "\<exists>cls' cvars'.
        ContextReducer_call self' (PyContext (Context t items)) = Inr (cls', cvars')
      \<and> set cvars' \<subseteq> {(ref, v). \<exists>cv. cv \<noteq> cv0 \<and> (cv, v) \<in> set items \<and> registry cv = Some ref}"
    if "ContextReducer_unregister_contextvar self cv0 = (None, self')" for self'
  proof -
    from that have reg': "picklable_contextvars self' = registry(cv0 := None)"
      by (auto simp: ContextReducer_unregister_contextvar_def registry_def split: option.splits)
    have "set (reduce_items (registry(cv0 := None)) items [])
            \<subseteq> {(ref, v). \<exists>cv. cv \<noteq> cv0 \<and> (cv, v) \<in> set items \<and> registry cv = Some ref}"
    proof (clarify)
      fix ref v
      assume "(ref, v) \<in> set (reduce_items (registry(cv0 := None)) items [])"
      from reduce_items_origin [OF this]
      obtain cv where "(cv, v) \<in> set items" "(registry(cv0 := None)) cv = Some ref"
        by auto
      then show "\<exists>cv. cv \<noteq> cv0 \<and> (cv, v) \<in> set items \<and> registry cv = Some ref"
        by (cases "cv = cv0") auto
    qed
    then show ?thesis
      by (simp add: reg' Let_def)
  qed
  from call sound keys exact after show ?thesis
    unfolding registry_def by blast
qed

theorem privacy_boundary_witness:
  "\<exists>cls cvars.
     ContextReducer_call example_registry
       (PyContext (Context Context_type [(ContextVar 1 ''a'', PyInt 1), (ContextVar 9 ''z'', PyStr ''secret'')]))
       = Inr (cls, cvars)
   \<and> set cvars = {((''m'', ''a''), PyInt 1)}
   \<and> (\<exists>self'. ContextReducer_unregister_contextvar example_registry (ContextVar 1 ''a'') = (None, self')
        \<and> (\<exists>cls' cvars'.
            ContextReducer_call self'
              (PyContext (Context Context_type [(ContextVar 1 ''a'', PyInt 1), (ContextVar 9 ''z'', PyStr ''secret'')]))
              = Inr (cls', cvars')
            \<and> set cvars' = {}))"
  using privacy_boundary [of example_registry Context_type
      "[(ContextVar 1 ''a'', PyInt 1), (ContextVar 9 ''z'', PyStr ''secret'')]" "ContextVar 1 ''a''"]
  by (simp add: example_registry_def ContextReducer_unregister_contextvar_def)

text \<open>
  Without the condition on shared references the entries are not exactly the pairs of
  the registered keys: two variables registered under one reference leave one entry, and
  the pair of the variable iterated first is missing, in whichever order the context
  yields its items.
\<close>

theorem privacy_boundary_counterexample:
  "ContextReducer_call collision_registry (PyContext example_context)
     = Inr (Cls_None, [((''m'', ''x''), PyInt 2)])
   \<and> (ContextVar 1 ''a'', PyInt 1) \<in> set (ctx_vars example_context)
   \<and> picklable_contextvars collision_registry (ContextVar 1 ''a'') = Some (''m'', ''x'')
   \<and> ((''m'', ''x''), PyInt 1) \<notin> set [((''m'', ''x''), PyInt 2)]
   \<and> ContextReducer_call collision_registry
         (PyContext (Context Context_type (rev (ctx_vars example_context))))
       = Inr (Cls_None, [((''m'', ''x''), PyInt 1)])
   \<and> (ContextVar 2 ''b'', PyInt 2) \<in> set (rev (ctx_vars example_context))
   \<and> picklable_contextvars collision_registry (ContextVar 2 ''b'') = Some (''m'', ''x'')
   \<and> ((''m'', ''x''), PyInt 2) \<notin> set [((''m'', ''x''), PyInt 1)]"
  by (simp add: collision_registry_eq example_context_def)

subsection \<open>Histories of registrations\<close>

lemma register_failed:
  "register_contextvar env st contextvar module qualname validate = (Some e, st') \<Longrightarrow> st' = st"
  by (auto simp: register_contextvar_def ContextReducer_register_contextvar_def Let_def
      split: pyobj.splits option.splits if_splits)

lemma register_succeeded:
  assumes "register_contextvar env st contextvar module qualname validate = (None, st')"
  shows "stackless_importable (interpreter st') = stackless_importable (interpreter st)"
    and "auto_register (default_context_reducer st') = False"
    and "calls (interpreter st')
           = calls (interpreter st)
             @ (if auto_register (default_context_reducer st)
                then activation (stackless_importable (interpreter st)) else [])"
  using assms
  by (auto simp: register_contextvar_def ContextReducer_register_contextvar_def Let_def
      activation_def split: pyobj.splits option.splits if_splits)

lemma unregister_frame:
  assumes "unregister_contextvar st contextvar = (r, st')"
  shows "interpreter st' = interpreter st"
    and "auto_register (default_context_reducer st') = auto_register (default_context_reducer st)"
  using assms
  by (auto simp: unregister_contextvar_def ContextReducer_unregister_contextvar_def
      split: option.splits)

lemma perform_step:
  assumes "perform env c st = (r, st')"
  shows "stackless_importable (interpreter st') = stackless_importable (interpreter st)"
    and "auto_register (default_context_reducer st')
           = (auto_register (default_context_reducer st) \<and> \<not> registered_ok ((env, c), r))"
    and "calls (interpreter st')
           = calls (interpreter st)
             @ (if auto_register (default_context_reducer st) \<and> registered_ok ((env, c), r)
                then activation (stackless_importable (interpreter st)) else [])"
proof -
  show "stackless_importable (interpreter st') = stackless_importable (interpreter st)"
    using assms
    by (cases c; cases r) (auto dest: register_failed register_succeeded(1) unregister_frame(1))
  show "auto_register (default_context_reducer st')
           = (auto_register (default_context_reducer st) \<and> \<not> registered_ok ((env, c), r))"
    using assms
    by (cases c; cases r) (auto dest: register_failed register_succeeded(2) unregister_frame(2))
  show "calls (interpreter st')
           = calls (interpreter st)
             @ (if auto_register (default_context_reducer st) \<and> registered_ok ((env, c), r)
                then activation (stackless_importable (interpreter st)) else [])"
    using assms
    by (cases c; cases r)
       (auto dest: register_failed unregister_frame(1) simp: register_succeeded(3))
qed

lemma run_history:
  "run cs st = (rs, st') \<Longrightarrow>
     stackless_importable (interpreter st') = stackless_importable (interpreter st)
   \<and> auto_register (default_context_reducer st')
       = (auto_register (default_context_reducer st) \<and> \<not> list_ex registered_ok (zip cs rs))
   \<and> calls (interpreter st')
       = calls (interpreter st)
         @ (if auto_register (default_context_reducer st) \<and> list_ex registered_ok (zip cs rs)
            then activation (stackless_importable (interpreter st)) else [])"
proof (induction cs arbitrary: st rs)
  case Nil
  then show ?case by auto
next
  case (Cons step cs)
  obtain env c where step: "step = (env, c)" by (cases step)
  obtain r st1 where first: "perform env c st = (r, st1)" by (cases "perform env c st")
  obtain rs1 where rest: "run cs st1 = (rs1, st')" and rs: "rs = r # rs1"
    using Cons.prems by (auto simp: step first split: prod.splits)
  note perform_step [OF first] and Cons.IH [OF rest]
  then show ?case
    by (auto simp: step rs)
qed

text \<open>
  C7. One-time auto-activation: in every history of calls of the module-level
  \<^verbatim>\<open>register_contextvar\<close> and \<^verbatim>\<open>unregister_contextvar\<close> from the initial state of the
  module, the calls made into \<^verbatim>\<open>copyreg\<close> and \<^verbatim>\<open>stackless\<close> are none as long as no
  registration has returned, and from the first registration that returns on they are
  the activation, once: \<^verbatim>\<open>copyreg.pickle\<close> for the context type, followed by
  \<^verbatim>\<open>pickle_flags\<close> and \<^verbatim>\<open>pickle_flags_default\<close> when \<^verbatim>\<open>stackless\<close> can be imported. The
  flag \<^verbatim>\<open>auto_register\<close> of the default reducer is set exactly until then, and a
  registration that raises, as one that fails validation does, changes nothing at all.
\<close>

theorem auto_activation_once:
  assumes "run cs (cvpickle_init stackless) = (rs, st)"
  shows "calls (interpreter st)
           = (if list_ex registered_ok (zip cs rs) then activation stackless else [])
       \<and> auto_register (default_context_reducer st) = (\<not> list_ex registered_ok (zip cs rs))
       \<and> (\<forall>env contextvar module qualname validate e st'.
             register_contextvar env st contextvar module qualname validate = (Some e, st')
               \<longrightarrow> st' = st)"
  using run_history [OF assms] register_failed
  by (auto simp: cvpickle_init_def ContextReducer_init_def)

theorem auto_activation_once_witness:
  "\<exists>e st. run example_history (cvpickle_init True) = ([Some (ValueError e), None, None, None], st)
       \<and> list_ex registered_ok (zip example_history [Some (ValueError e), None, None, None])
       \<and> calls (interpreter st)
           = [Copyreg_pickle Context_type,
              Pickle_flags PICKLEFLAGS_PICKLE_CONTEXT PICKLEFLAGS_PICKLE_CONTEXT,
              Pickle_flags_default PICKLEFLAGS_PICKLE_CONTEXT PICKLEFLAGS_PICKLE_CONTEXT]
       \<and> \<not> auto_register (default_context_reducer st)"
proof -
  obtain rs st where run: "run example_history (cvpickle_init True) = (rs, st)"
    by (cases "run example_history (cvpickle_init True)")
  then have rs: "rs = [Some (ValueError
      ''Not the same object: ContextVar c and global m.a''), None, None, None]"
    by (auto simp: example_history_def example_env_def cvpickle_init_def ContextReducer_init_def
        register_contextvar_def unregister_contextvar_def
        ContextReducer_register_contextvar_def ContextReducer_unregister_contextvar_def Let_def)
  have ok: "list_ex registered_ok (zip example_history rs)"
    by (simp add: rs example_history_def)
  from auto_activation_once [OF run] ok run show ?thesis
    by (auto simp: rs activation_def)
qed

end
